theory Spec2Isabelle
  imports Main
begin

section \<open>Dates\<close>

text \<open>
  A \<^verbatim>\<open>datetime.date\<close> has a year, a month and a day; a \<^verbatim>\<open>datetime.datetime\<close>
  adds the time of day. Python integers are unbounded, so the fields are \<open>int\<close>; the
  constructors of the standard library only build dates that satisfy \<open>valid_date\<close>.
\<close>

record date =
  year :: int
  month :: int
  day :: int

record datetime =
  dt_year :: int
  dt_month :: int
  dt_day :: int
  dt_hour :: int
  dt_minute :: int
  dt_second :: int
  dt_microsecond :: int

text \<open>\<^verbatim>\<open>datetime.date()\<close>: the calendar date, the time of day dropped.\<close>

definition date_of :: "datetime \<Rightarrow> date" where
  "date_of dt = \<lparr>year = dt_year dt, month = dt_month dt, day = dt_day dt\<rparr>"

text \<open>The calendar arithmetic of the standard library's \<^verbatim>\<open>datetime\<close> module.\<close>

definition is_leap :: "int \<Rightarrow> bool" where
  "is_leap y = (y mod 4 = 0 \<and> (y mod 100 \<noteq> 0 \<or> y mod 400 = 0))"

definition days_before_year :: "int \<Rightarrow> int" where
  "days_before_year y =
     (y - 1) * 365 + (y - 1) div 4 - (y - 1) div 100 + (y - 1) div 400"

definition days_in_month :: "int \<Rightarrow> int \<Rightarrow> int" where
  "days_in_month y m =
     (if m = 2 \<and> is_leap y then 29
      else if m = 2 then 28
      else if m = 4 \<or> m = 6 \<or> m = 9 \<or> m = 11 then 30
      else 31)"

definition days_before_month_table :: "int \<Rightarrow> int" where
  "days_before_month_table m =
     (if m = 1 then 0 else if m = 2 then 31 else if m = 3 then 59
      else if m = 4 then 90 else if m = 5 then 120 else if m = 6 then 151
      else if m = 7 then 181 else if m = 8 then 212 else if m = 9 then 243
      else if m = 10 then 273 else if m = 11 then 304 else 334)"

definition days_before_month :: "int \<Rightarrow> int \<Rightarrow> int" where
  "days_before_month y m =
     days_before_month_table m + (if m > 2 \<and> is_leap y then 1 else 0)"

definition valid_date :: "date \<Rightarrow> bool" where
  "valid_date d =
     (1 \<le> year d \<and> year d \<le> 9999 \<and> 1 \<le> month d \<and> month d \<le> 12 \<and>
      1 \<le> day d \<and> day d \<le> days_in_month (year d) (month d))"

definition toordinal :: "date \<Rightarrow> int" where
  "toordinal d =
     days_before_year (year d) + days_before_month (year d) (month d) + day d"

text \<open>\<^verbatim>\<open>date.weekday()\<close>: Monday is 0, Sunday is 6.\<close>

definition weekday :: "date \<Rightarrow> int" where
  "weekday d = (toordinal d + 6) mod 7"

text \<open>
  The calendar day after a date, written from the calendar's rules and not from the
  ordinal: the yardstick against which the weekday of the formatted text is checked.
\<close>

definition next_day :: "date \<Rightarrow> date" where
  "next_day d =
     (if day d < days_in_month (year d) (month d) then d\<lparr>day := day d + 1\<rparr>
      else if month d < 12 then d\<lparr>month := month d + 1, day := 1\<rparr>
      else \<lparr>year = year d + 1, month = 1, day = 1\<rparr>)"

section \<open>Text\<close>

text \<open>
  \<^verbatim>\<open>str.isspace\<close> on one character, for the characters a \<open>char\<close> holds
  (code points below 256), and \<^verbatim>\<open>str.strip()\<close>.
\<close>

definition isspace :: "char \<Rightarrow> bool" where
  "isspace c = ((of_char c :: nat) \<in> set [9, 10, 11, 12, 13, 28, 29, 30, 31, 32, 133, 160])"

definition strip :: "string \<Rightarrow> string" where
  "strip s = rev (dropWhile isspace (rev (dropWhile isspace s)))"

definition digit_char :: "int \<Rightarrow> char" where
  "digit_char n = char_of (48 + nat n)"

definition digit_val :: "char \<Rightarrow> int" where
  "digit_val c = int (of_char c) - 48"

definition pad2 :: "int \<Rightarrow> string" where
  "pad2 n = [digit_char (n div 10 mod 10), digit_char (n mod 10)]"

definition pad4 :: "int \<Rightarrow> string" where
  "pad4 n = [digit_char (n div 1000 mod 10), digit_char (n div 100 mod 10),
             digit_char (n div 10 mod 10), digit_char (n mod 10)]"

text \<open>A natural number in decimal, without padding.\<close>

fun decimal :: "nat \<Rightarrow> string" where
  "decimal n =
     (if n < 10 then [digit_char (int n)]
      else decimal (n div 10) @ [digit_char (int (n mod 10))])"

declare decimal.simps [simp del]

definition is_digit :: "char \<Rightarrow> bool" where
  "is_digit c = (c \<in> set ''0123456789'')"

text \<open>Reading a run of decimal digits back as a number.\<close>

definition read_digits :: "string \<Rightarrow> int" where
  "read_digits s = foldl (\<lambda>acc c. acc * 10 + digit_val c) 0 s"

text \<open>The \<^verbatim>\<open>%a\<close> names of the C locale, indexed by \<^verbatim>\<open>weekday()\<close>.\<close>

definition day_abbr :: "int \<Rightarrow> string" where
  "day_abbr w =
     (if w = 0 then ''Mon'' else if w = 1 then ''Tue'' else if w = 2 then ''Wed''
      else if w = 3 then ''Thu'' else if w = 4 then ''Fri'' else if w = 5 then ''Sat''
      else ''Sun'')"

section \<open>Date utilities (utils/date\_utils.py)\<close>

text \<open>
  The exceptions the model distinguishes. \<open>ParserError\<close> is dateutil's (a subclass of
  \<open>ValueError\<close>); \<open>OverflowError\<close> is the one \<^verbatim>\<open>dateutil.parser.parse\<close> documents
  for a date beyond the largest C integer; \<open>IntegrityError\<close> is the database's for a
  violated constraint.
\<close>

datatype exc = ParserError | ValueError | TypeError | OverflowError | IntegrityError

text \<open>
  \<^verbatim>\<open>dateutil.parser.parse\<close> is a library outside the repository: the utilities take
  it as the parameter \<open>parse_date\<close>, a function from the text to the exception it raises
  or the datetime it returns.
\<close>

type_synonym dateutil = "string \<Rightarrow> exc + datetime"

text \<open>
  \<^verbatim>\<open>parse_date_input\<close>: \<open>Inr None\<close> is the returned \<^verbatim>\<open>None\<close>, \<open>Inr (Some d)\<close> a
  returned date, \<open>Inl e\<close> an exception that leaves the function. The \<^verbatim>\<open>except\<close>
  clause names \<^verbatim>\<open>ParserError\<close>, \<^verbatim>\<open>ValueError\<close> and \<^verbatim>\<open>TypeError\<close>.
\<close>

definition parse_date_input :: "dateutil \<Rightarrow> string \<Rightarrow> exc + date option" where
  "parse_date_input parse_date date_string =
     (if date_string = [] \<or> strip date_string = [] then Inr None
      else (case parse_date (strip date_string) of
              Inr parsed_datetime \<Rightarrow> Inr (Some (date_of parsed_datetime))
            | Inl ParserError \<Rightarrow> Inr None
            | Inl ValueError \<Rightarrow> Inr None
            | Inl TypeError \<Rightarrow> Inr None
            | Inl e \<Rightarrow> Inl e))"

text \<open>
  \<^verbatim>\<open>format_date_for_display\<close>: a date object is always true in Python, so only
  \<^verbatim>\<open>None\<close> takes the first branch. \<^verbatim>\<open>strftime("%Y-%m-%d (%a)")\<close> is written out
  as CPython on glibc renders it: \<^verbatim>\<open>%Y\<close> is the year in decimal without padding (four
  digits from the year 1000 on, fewer below), \<^verbatim>\<open>%m\<close> and \<^verbatim>\<open>%d\<close> are the month and the
  day in two digits, \<^verbatim>\<open>%a\<close> is the abbreviated weekday name.
\<close>

definition format_date_for_display :: "date option \<Rightarrow> string" where
  "format_date_for_display date_obj =
     (case date_obj of
        None \<Rightarrow> []
      | Some d \<Rightarrow> decimal (nat (year d)) @ ''-'' @ pad2 (month d) @ ''-'' @ pad2 (day d)
                  @ '' ('' @ day_abbr (weekday d) @ '')'')"

definition validate_date_input :: "dateutil \<Rightarrow> string \<Rightarrow> exc + bool" where
  "validate_date_input parse_date date_string =
     (case parse_date_input parse_date date_string of
        Inl e \<Rightarrow> Inl e
      | Inr r \<Rightarrow> Inr (r \<noteq> None))"

section \<open>The models (models/)\<close>

datatype BookType = PHYSICAL | EBOOK | AUDIOBOOK

datatype ReadingStatus = TO_READ | READING | COMPLETED | ABANDONED

datatype NoteType = REVIEW | HIGHLIGHT | THOUGHT | QUOTE

text \<open>A \<^verbatim>\<open>DateTime\<close> column filled by \<^verbatim>\<open>func.now()\<close>: the clock's reading, in seconds.\<close>

type_synonym timestamp = nat

text \<open>
  One record per mapped class, one field per column; \<open>b_id\<close>, \<open>rs_id\<close> and \<open>n_id\<close> are
  the \<^verbatim>\<open>id\<close> primary keys, \<open>rs_book_id\<close> and \<open>n_book_id\<close> the \<^verbatim>\<open>book_id\<close> foreign
  keys. A nullable column is an \<open>option\<close>.
\<close>

record Book =
  b_id :: int
  title :: string
  author :: string
  isbn :: "string option"
  publisher :: "string option"
  publication_year :: "int option"
  pages :: "int option"
  book_type :: BookType
  status :: ReadingStatus
  added_date :: timestamp
  last_modified :: timestamp

record ReadingSession =
  rs_id :: int
  rs_book_id :: int
  start_date :: date
  end_date :: "date option"
  session_notes :: "string option"
  rs_created_date :: timestamp

record Note =
  n_id :: int
  n_book_id :: int
  note_type :: NoteType
  n_title :: "string option"
  content :: string
  page_number :: "int option"
  n_created_date :: timestamp
  n_last_modified :: timestamp

section \<open>The database (database/manager.py)\<close>

text \<open>
  The three tables, each in the order of its primary key (\<open>notes_table\<close> is the
  table \<^verbatim>\<open>notes\<close>). Every method of
  \<^verbatim>\<open>DatabaseManager\<close> opens a session, works and commits; an exception leaves the
  \<^verbatim>\<open>with\<close> block before the commit, and the database is as it was. A method is
  therefore a function from the database to the database after it, paired with what
  the method returns or raises.
\<close>

record database =
  books :: "Book list"
  reading_sessions :: "ReadingSession list"
  notes_table :: "Note list"

definition empty_db :: database where
  "empty_db = \<lparr>books = [], reading_sessions = [], notes_table = []\<rparr>"

text \<open>
  What a call reads from outside the program: dateutil's parser, \<^verbatim>\<open>date.today()\<close>
  and the clock behind \<^verbatim>\<open>func.now()\<close>.
\<close>

record env =
  env_parse :: dateutil
  env_today :: date
  env_now :: timestamp

text \<open>
  SQLite stores an integer in 64 bits, signed. The driver raises \<open>OverflowError\<close> when
  it binds a Python \<^verbatim>\<open>int\<close> outside that range as a parameter of a statement, before
  the statement runs; \<^verbatim>\<open>None\<close> binds as NULL. The check is written out in
  \<^verbatim>\<open>add_book\<close>, \<^verbatim>\<open>delete_book\<close> and \<^verbatim>\<open>start_reading_session\<close>, whose arguments
  range over every integer in the properties below; the other methods are modelled for
  arguments that SQLite can bind, as the id of a stored book always is.
\<close>

definition int64 :: "int \<Rightarrow> bool" where
  "int64 i = (- 9223372036854775808 \<le> i \<and> i \<le> 9223372036854775807)"

definition binds :: "int option \<Rightarrow> bool" where
  "binds v = (case v of None \<Rightarrow> True | Some i \<Rightarrow> int64 i)"

text \<open>
  An \<^verbatim>\<open>Integer\<close> primary key of SQLite without the \<^verbatim>\<open>AUTOINCREMENT\<close> keyword: a new
  row gets the largest key of the table plus one, and 1 in an empty table.
\<close>

definition next_id :: "int list \<Rightarrow> int" where
  "next_id ids = (if ids = [] then 1 else Max (set ids) + 1)"

text \<open>
  Assigning \<^verbatim>\<open>book.status\<close>: the flush writes an UPDATE only when the value changed,
  and the UPDATE carries \<^verbatim>\<open>last_modified\<close>'s \<^verbatim>\<open>onupdate=func.now()\<close>.
\<close>

definition set_status :: "env \<Rightarrow> ReadingStatus \<Rightarrow> Book \<Rightarrow> Book" where
  "set_status e st b =
     (if status b = st then b else b\<lparr>status := st, last_modified := env_now e\<rparr>)"

text \<open>
  \<^verbatim>\<open>add_book\<close>. The columns \<^verbatim>\<open>title\<close> and \<^verbatim>\<open>author\<close> are \<^verbatim>\<open>nullable=False\<close>, which
  a \<^verbatim>\<open>str\<close> always satisfies, the empty one too; \<^verbatim>\<open>isbn\<close> is \<^verbatim>\<open>unique=True\<close>, and
  a second row with an ISBN already stored (NULL apart) fails the commit with
  \<open>IntegrityError\<close>. The INSERT binds \<^verbatim>\<open>publication_year\<close> and \<^verbatim>\<open>pages\<close>: a value
  outside the 64-bit range raises \<open>OverflowError\<close> before the statement runs, and
  so before the unique constraint is looked at.
\<close>

definition add_book ::
  "env \<Rightarrow> database \<Rightarrow> string \<Rightarrow> string \<Rightarrow> BookType \<Rightarrow> string option \<Rightarrow> string option \<Rightarrow>
   int option \<Rightarrow> int option \<Rightarrow> database \<times> (exc + Book)" where
  "add_book e db title' author' book_type' isbn' publisher' publication_year' pages' =
     (let book = \<lparr>b_id = next_id (map b_id (books db)), title = title', author = author',
                   isbn = isbn', publisher = publisher', publication_year = publication_year',
                   pages = pages', book_type = book_type', status = TO_READ,
                   added_date = env_now e, last_modified = env_now e\<rparr>
      in if \<not> binds publication_year' \<or> \<not> binds pages'
         then (db, Inl OverflowError)
         else if isbn' \<noteq> None \<and> isbn' \<in> set (map isbn (books db))
         then (db, Inl IntegrityError)
         else (db\<lparr>books := books db @ [book]\<rparr>, Inr book))"

definition get_book_by_id :: "database \<Rightarrow> int \<Rightarrow> Book option" where
  "get_book_by_id db book_id = find (\<lambda>b. b_id b = book_id) (books db)"

definition update_book_status :: "env \<Rightarrow> database \<Rightarrow> int \<Rightarrow> ReadingStatus \<Rightarrow> database" where
  "update_book_status e db book_id status' =
     (case find (\<lambda>b. b_id b = book_id) (books db) of
        None \<Rightarrow> db
      | Some book \<Rightarrow>
          db\<lparr>books := map (\<lambda>b. if b_id b = b_id book then set_status e status' b else b)
                           (books db)\<rparr>)"

text \<open>
  \<^verbatim>\<open>delete_book\<close>: the query binds \<^verbatim>\<open>book_id\<close>; \<^verbatim>\<open>session.delete(book)\<close> follows the
  relationships' \<^verbatim>\<open>cascade="all, delete-orphan"\<close> and deletes the sessions and the notes
  of the book with it.
\<close>

definition delete_book :: "database \<Rightarrow> int \<Rightarrow> database \<times> (exc + bool)" where
  "delete_book db book_id =
     (if \<not> int64 book_id then (db, Inl OverflowError)
      else (case find (\<lambda>b. b_id b = book_id) (books db) of
              Some book \<Rightarrow>
                (\<lparr>books = filter (\<lambda>b. b_id b \<noteq> b_id book) (books db),
                  reading_sessions = filter (\<lambda>r. rs_book_id r \<noteq> b_id book) (reading_sessions db),
                  notes_table = filter (\<lambda>n. n_book_id n \<noteq> b_id book) (notes_table db)\<rparr>,
                 Inr True)
            | None \<Rightarrow> (db, Inr False)))"

text \<open>
  The opening lines of \<^verbatim>\<open>start_reading_session\<close> and \<^verbatim>\<open>end_reading_session\<close>:
  \<^verbatim>\<open>None\<close> and the empty text are false and give today; any other text goes to
  \<^verbatim>\<open>parse_date_input\<close>, whose \<^verbatim>\<open>None\<close> raises \<open>ValueError\<close>.
\<close>

definition resolve_date :: "env \<Rightarrow> string option \<Rightarrow> exc + date" where
  "resolve_date e date_str =
     (case date_str of
        None \<Rightarrow> Inr (env_today e)
      | Some t \<Rightarrow>
          if t = [] then Inr (env_today e)
          else (case parse_date_input (env_parse e) t of
                  Inl x \<Rightarrow> Inl x
                | Inr None \<Rightarrow> Inl ValueError
                | Inr (Some d) \<Rightarrow> Inr d))"

text \<open>The filter of both session methods: this book's session with no end date.\<close>

definition is_open :: "int \<Rightarrow> ReadingSession \<Rightarrow> bool" where
  "is_open book_id r = (rs_book_id r = book_id \<and> end_date r = None)"

text \<open>
  \<^verbatim>\<open>start_reading_session\<close>. The date is resolved first; the first query then binds
  \<^verbatim>\<open>book_id\<close>. \<^verbatim>\<open>.first()\<close> is the first row of the filter or
  \<^verbatim>\<open>None\<close>; the assignment to \<^verbatim>\<open>current_session.end_date\<close> is written back by primary
  key. SQLite does not enforce the foreign key (the engine never turns
  \<^verbatim>\<open>PRAGMA foreign_keys\<close> on), so the new row is inserted whether the book exists or not.
\<close>

definition start_reading_session ::
  "env \<Rightarrow> database \<Rightarrow> int \<Rightarrow> string option \<Rightarrow> database \<times> (exc + ReadingSession)" where
  "start_reading_session e db book_id start_date_str =
     (case resolve_date e start_date_str of
        Inl x \<Rightarrow> (db, Inl x)
      | Inr start_date' \<Rightarrow>
          if \<not> int64 book_id then (db, Inl OverflowError)
          else
          (let current_session = find (is_open book_id) (reading_sessions db);
               closed = (case current_session of
                           None \<Rightarrow> reading_sessions db
                         | Some c \<Rightarrow> map (\<lambda>r. if rs_id r = rs_id c
                                                then r\<lparr>end_date := Some start_date'\<rparr> else r)
                                          (reading_sessions db));
               new_session = \<lparr>rs_id = next_id (map rs_id closed), rs_book_id = book_id,
                              start_date = start_date', end_date = None,
                              session_notes = None, rs_created_date = env_now e\<rparr>;
               books' = (case find (\<lambda>b. b_id b = book_id) (books db) of
                           None \<Rightarrow> books db
                         | Some book \<Rightarrow> map (\<lambda>b. if b_id b = b_id book
                                                   then set_status e READING b else b)
                                             (books db))
           in (db\<lparr>books := books', reading_sessions := closed @ [new_session]\<rparr>,
               Inr new_session)))"

text \<open>
  \<^verbatim>\<open>end_reading_session\<close>. The method has no \<^verbatim>\<open>return\<close> statement: it returns
  \<^verbatim>\<open>None\<close> on every path that does not raise, here \<open>Inr ()\<close>.
\<close>

definition end_reading_session ::
  "env \<Rightarrow> database \<Rightarrow> int \<Rightarrow> string option \<Rightarrow> string option \<Rightarrow> bool \<Rightarrow>
   database \<times> (exc + unit)" where
  "end_reading_session e db book_id end_date_str session_notes' completed =
     (case resolve_date e end_date_str of
        Inl x \<Rightarrow> (db, Inl x)
      | Inr end_date' \<Rightarrow>
          (case find (is_open book_id) (reading_sessions db) of
             None \<Rightarrow> (db, Inr ())
           | Some c \<Rightarrow>
               (let ended = map (\<lambda>r. if rs_id r = rs_id c
                                      then (if session_notes' \<noteq> None \<and> session_notes' \<noteq> Some []
                                            then r\<lparr>end_date := Some end_date',
                                                   session_notes := session_notes'\<rparr>
                                            else r\<lparr>end_date := Some end_date'\<rparr>)
                                      else r)
                                (reading_sessions db);
                    books' = (if completed
                              then (case find (\<lambda>b. b_id b = book_id) (books db) of
                                      None \<Rightarrow> books db
                                    | Some book \<Rightarrow> map (\<lambda>b. if b_id b = b_id book
                                                              then set_status e COMPLETED b else b)
                                                        (books db))
                              else books db)
                in (db\<lparr>books := books', reading_sessions := ended\<rparr>, Inr ()))))"

text \<open>
  The two listings order their rows by a column, descending; rows that agree on the
  column keep the table's order here (SQL leaves their order open).
\<close>

definition date_key :: "date \<Rightarrow> int" where
  "date_key d = year d * 10000 + month d * 100 + day d"

definition get_reading_sessions :: "database \<Rightarrow> int \<Rightarrow> ReadingSession list" where
  "get_reading_sessions db book_id =
     sort_key (\<lambda>r. - date_key (start_date r))
       (filter (\<lambda>r. rs_book_id r = book_id) (reading_sessions db))"

definition add_note ::
  "env \<Rightarrow> database \<Rightarrow> int \<Rightarrow> NoteType \<Rightarrow> string \<Rightarrow> string option \<Rightarrow> int option \<Rightarrow>
   database \<times> Note" where
  "add_note e db book_id note_type' content' title' page_number' =
     (let note = \<lparr>n_id = next_id (map n_id (notes_table db)), n_book_id = book_id,
                   note_type = note_type', n_title = title', content = content',
                   page_number = page_number', n_created_date = env_now e,
                   n_last_modified = env_now e\<rparr>
      in (db\<lparr>notes_table := notes_table db @ [note]\<rparr>, note))"

definition get_notes_for_book :: "database \<Rightarrow> int \<Rightarrow> Note list" where
  "get_notes_for_book db book_id =
     sort_key (\<lambda>n. - int (n_created_date n))
       (filter (\<lambda>n. n_book_id n = book_id) (notes_table db))"

definition delete_note :: "database \<Rightarrow> int \<Rightarrow> database \<times> bool" where
  "delete_note db note_id =
     (case find (\<lambda>n. n_id n = note_id) (notes_table db) of
        Some note \<Rightarrow> (db\<lparr>notes_table := filter (\<lambda>n. n_id n \<noteq> n_id note) (notes_table db)\<rparr>, True)
      | None \<Rightarrow> (db, False))"

section \<open>Sequences of calls\<close>

text \<open>
  A call of one of the mutating methods, with its arguments; \<open>exec\<close> is the database
  after the call (unchanged when the call raises), \<open>run\<close> a sequence of calls, each
  with the outside world it saw.
\<close>

datatype call =
    AddBook string string BookType "string option" "string option" "int option" "int option"
  | UpdateBookStatus int ReadingStatus
  | DeleteBook int
  | StartSession int "string option"
  | EndSession int "string option" "string option" bool
  | AddNote int NoteType string "string option" "int option"
  | DeleteNote int

fun exec :: "env \<Rightarrow> call \<Rightarrow> database \<Rightarrow> database" where
  "exec e (AddBook t a bt i p y n) db = fst (add_book e db t a bt i p y n)"
| "exec e (UpdateBookStatus b st) db = update_book_status e db b st"
| "exec e (DeleteBook b) db = fst (delete_book db b)"
| "exec e (StartSession b d) db = fst (start_reading_session e db b d)"
| "exec e (EndSession b d n c) db = fst (end_reading_session e db b d n c)"
| "exec e (AddNote b nt c t p) db = fst (add_note e db b nt c t p)"
| "exec e (DeleteNote n) db = fst (delete_note db n)"

fun run :: "(env \<times> call) list \<Rightarrow> database \<Rightarrow> database" where
  "run [] db = db"
| "run ((e, c) # cs) db = run cs (exec e c db)"

section \<open>The add-book form (ui/screens/add\_book.py, ui/app.py)\<close>

text \<open>
  The values of the form's widgets when it is submitted, and the dictionary the form
  dismisses with. \<^verbatim>\<open>x.strip() or None\<close> is \<open>or_None (strip x)\<close>.
\<close>

record book_form =
  title_input :: string
  author_input :: string
  type_select :: BookType
  isbn_input :: string
  publisher_input :: string
  year_input :: string
  pages_input :: string
  genre_input :: string
  description_input :: string

record book_data =
  bd_title :: string
  bd_author :: string
  bd_book_type :: BookType
  bd_isbn :: "string option"
  bd_publisher :: "string option"
  bd_publication_year :: "int option"
  bd_pages :: "int option"
  bd_genre :: "string option"
  bd_description :: "string option"

definition or_None :: "string \<Rightarrow> string option" where
  "or_None s = (if s = [] then None else Some s)"

text \<open>
  \<^verbatim>\<open>_submit_form\<close>: \<open>Inl\<close> is the message written to \<^verbatim>\<open>#error-message\<close> before the
  early \<^verbatim>\<open>return\<close> (the form stays open and nothing is submitted), \<open>Inr\<close> the data
  given to \<^verbatim>\<open>dismiss\<close>. The builtin \<^verbatim>\<open>int\<close> is the parameter \<open>py_int\<close>, \<open>None\<close> where
  it raises \<^verbatim>\<open>ValueError\<close>.
\<close>

definition submit_form :: "(string \<Rightarrow> int option) \<Rightarrow> book_form \<Rightarrow> string + book_data" where
  "submit_form py_int f =
     (let title' = strip (title_input f);
          author' = strip (author_input f)
      in if title' = [] then Inl ''Title is required''
         else if author' = [] then Inl ''Author is required''
         else
           (let year_str = strip (year_input f);
                pages_str = strip (pages_input f)
            in if year_str \<noteq> [] \<and> py_int year_str = None
               then Inl ''Publication year must be a number''
               else if pages_str \<noteq> [] \<and> py_int pages_str = None
               then Inl ''Pages must be a number''
               else Inr \<lparr>bd_title = title', bd_author = author',
                          bd_book_type = type_select f,
                          bd_isbn = or_None (strip (isbn_input f)),
                          bd_publisher = or_None (strip (publisher_input f)),
                          bd_publication_year = (if year_str \<noteq> [] then py_int year_str else None),
                          bd_pages = (if pages_str \<noteq> [] then py_int pages_str else None),
                          bd_genre = or_None (strip (genre_input f)),
                          bd_description = or_None (strip (description_input f))\<rparr>))"

text \<open>
  \<^verbatim>\<open>action_add_book\<close> with its callback \<^verbatim>\<open>handle_add_book_result\<close>: the submitted
  data, the fields of the model only, go to \<^verbatim>\<open>add_book\<close>; an exception of \<^verbatim>\<open>add_book\<close>
  rings the bell and the database is as before.
\<close>

definition action_add_book ::
  "env \<Rightarrow> (string \<Rightarrow> int option) \<Rightarrow> database \<Rightarrow> book_form \<Rightarrow> database" where
  "action_add_book e py_int db f =
     (case submit_form py_int f of
        Inl msg \<Rightarrow> db
      | Inr bd \<Rightarrow> fst (add_book e db (bd_title bd) (bd_author bd) (bd_book_type bd) (bd_isbn bd)
                          (bd_publisher bd) (bd_publication_year bd) (bd_pages bd)))"

section \<open>The open-session invariant\<close>

text \<open>
  Primary keys are distinct, the book id of every stored session is one SQLite can
  hold, and no book id, stored or not, has two sessions without an end date.
\<close>

definition open_inv :: "ReadingSession list \<Rightarrow> bool" where
  "open_inv rs =
     (distinct (map rs_id rs) \<and> (\<forall>r\<in>set rs. int64 (rs_book_id r)) \<and>
      (\<forall>b. length (filter (is_open b) rs) \<le> 1))"

section \<open>Example data\<close>

text \<open>
  A parser that knows one text, two readings of the outside world, and a database built
  by calls: the concrete inputs of the examples below.
\<close>

definition example_parse :: dateutil where
  "example_parse t =
     (if t = ''2023-12-25''
      then Inr \<lparr>dt_year = 2023, dt_month = 12, dt_day = 25, dt_hour = 0, dt_minute = 0,
                dt_second = 0, dt_microsecond = 0\<rparr>
      else Inl ParserError)"

definition env1 :: env where
  "env1 = \<lparr>env_parse = example_parse, env_today = \<lparr>year = 2023, month = 11, day = 1\<rparr>,
           env_now = 5\<rparr>"

definition env2 :: env where
  "env2 = \<lparr>env_parse = example_parse, env_today = \<lparr>year = 2024, month = 1, day = 15\<rparr>,
           env_now = 1000\<rparr>"

definition db_one_book :: database where
  "db_one_book =
     run [(env1, AddBook ''Dune'' ''Frank Herbert'' PHYSICAL (Some ''9780441172719'') None None None)]
       empty_db"

definition db_reading :: database where
  "db_reading = run [(env1, StartSession 1 None)] db_one_book"

text \<open>The rows of \<open>db_reading\<close>.\<close>

definition dune :: Book where
  "dune = \<lparr>b_id = 1, title = ''Dune'', author = ''Frank Herbert'',
           isbn = Some ''9780441172719'', publisher = None, publication_year = None,
           pages = None, book_type = PHYSICAL, status = READING, added_date = 5,
           last_modified = 5\<rparr>"

definition first_session :: ReadingSession where
  "first_session = \<lparr>rs_id = 1, rs_book_id = 1,
                    start_date = \<lparr>year = 2023, month = 11, day = 1\<rparr>, end_date = None,
                    session_notes = None, rs_created_date = 5\<rparr>"

text \<open>The least integer above the 64-bit range, \<open>2 ^ 63\<close>.\<close>

definition too_big :: int where
  "too_big = 9223372036854775808"

definition christmas :: date where
  "christmas = \<lparr>year = 2023, month = 12, day = 25\<rparr>"

text \<open>A form submitted with a title of two spaces.\<close>

definition blank_title_form :: book_form where
  "blank_title_form =
     \<lparr>title_input = ''  '', author_input = ''Frank Herbert'', type_select = PHYSICAL,
      isbn_input = [], publisher_input = [], year_input = [], pages_input = [],
      genre_input = [], description_input = []\<rparr>"

section \<open>The calendar\<close>

text \<open>The ordinal of the day after a date is the ordinal of the date plus one.\<close>

lemma div_pred:
  assumes "0 < (k::int)"
  shows "y div k = (y - 1) div k + (if y mod k = 0 then 1 else 0)"
proof -
  define q where "q = y div k"
  define r where "r = y mod k"
  have y: "y = k * q + r" by (simp add: q_def r_def)
  have r: "0 \<le> r" "r < k" using assms by (simp_all add: r_def)
  show ?thesis
  proof (cases "r = 0")
    case True
    have "y - 1 = k * (q - 1) + (k - 1)" using y True by (simp add: right_diff_distrib)
    moreover have "0 \<le> k - 1" "k - 1 < k" using assms by simp_all
    ultimately have "(y - 1) div k = q - 1"
      by (rule int_div_pos_eq)
    with True show ?thesis by (simp add: q_def [symmetric] r_def [symmetric])
  next
    case False
    with r have r': "0 \<le> r - 1" "r - 1 < k" by linarith+
    have "y - 1 = k * q + (r - 1)" using y by simp
    then have "(y - 1) div k = q"
      using r' by (rule int_div_pos_eq)
    with False show ?thesis by (simp add: q_def [symmetric] r_def [symmetric])
  qed
qed

lemma mod_100_4: "(y::int) mod 100 = 0 \<Longrightarrow> y mod 4 = 0"
proof -
  assume "y mod 100 = 0"
  then have "100 dvd y" by (simp add: dvd_eq_mod_eq_0)
  moreover have "(4::int) dvd 100" by simp
  ultimately have "4 dvd y" by (rule dvd_trans [rotated])
  then show ?thesis by (simp add: dvd_eq_mod_eq_0)
qed

lemma mod_400_100: "(y::int) mod 400 = 0 \<Longrightarrow> y mod 100 = 0"
proof -
  assume "y mod 400 = 0"
  then have "400 dvd y" by (simp add: dvd_eq_mod_eq_0)
  moreover have "(100::int) dvd 400" by simp
  ultimately have "100 dvd y" by (rule dvd_trans [rotated])
  then show ?thesis by (simp add: dvd_eq_mod_eq_0)
qed

lemma days_before_year_Suc:
  "days_before_year (y + 1) = days_before_year y + 365 + (if is_leap y then 1 else 0)"
proof -
  define A where "A = (y - 1) div 4"
  define B where "B = (y - 1) div 100"
  define C where "C = (y - 1) div 400"
  have a: "y div 4 = A + (if y mod 4 = 0 then 1 else 0)" unfolding A_def by (rule div_pred) simp
  have b: "y div 100 = B + (if y mod 100 = 0 then 1 else 0)" unfolding B_def by (rule div_pred) simp
  have c: "y div 400 = C + (if y mod 400 = 0 then 1 else 0)" unfolding C_def by (rule div_pred) simp
  have l: "days_before_year (y + 1) = y * 365 + y div 4 - y div 100 + y div 400"
    by (simp add: days_before_year_def)
  have r: "days_before_year y = (y - 1) * 365 + A - B + C"
    by (simp add: days_before_year_def A_def B_def C_def)
  have e: "(y - 1) * 365 = y * 365 - 365" by (simp add: left_diff_distrib)
  show ?thesis
  proof (cases "y mod 4 = 0")
    case False
    with mod_100_4 [of y] have f1: "y mod 100 \<noteq> 0" by auto
    with mod_400_100 [of y] have f2: "y mod 400 \<noteq> 0" by auto
    show ?thesis unfolding l r a b c e is_leap_def using False f1 f2 by simp
  next
    case True
    show ?thesis
    proof (cases "y mod 100 = 0")
      case False
      with mod_400_100 [of y] have f2: "y mod 400 \<noteq> 0" by auto
      show ?thesis unfolding l r a b c e is_leap_def using True False f2 by simp
    next
      case h: True
      show ?thesis unfolding l r a b c e is_leap_def using True h by simp
    qed
  qed
qed


lemma month_cases:
  "1 \<le> (m::int) \<Longrightarrow> m < 12 \<Longrightarrow> m \<in> {1, 2, 3, 4, 5, 6, 7, 8, 9, 10, 11}"
  by simp arith

lemma days_before_month_Suc:
  "1 \<le> m \<Longrightarrow> m < 12 \<Longrightarrow>
   days_before_month y (m + 1) = days_before_month y m + days_in_month y m"
  by (drule (1) month_cases)
     (auto simp: days_before_month_def days_before_month_table_def days_in_month_def)

lemma days_before_december:
  "days_before_month y 12 + 31 = 365 + (if is_leap y then 1 else 0)"
  by (simp add: days_before_month_def days_before_month_table_def)

lemma toordinal_next_day:
  "valid_date d \<Longrightarrow> toordinal (next_day d) = toordinal d + 1"
proof -
  assume v: "valid_date d"
  show ?thesis
  proof (cases "day d < days_in_month (year d) (month d)")
    case True
    then show ?thesis by (simp add: next_day_def toordinal_def)
  next
    case False
    with v have dd: "day d = days_in_month (year d) (month d)"
      by (simp add: valid_date_def)
    show ?thesis
    proof (cases "month d < 12")
      case True
      with v have "days_before_month (year d) (month d + 1)
          = days_before_month (year d) (month d) + days_in_month (year d) (month d)"
        by (simp add: days_before_month_Suc valid_date_def)
      with True False dd show ?thesis by (simp add: next_day_def toordinal_def)
    next
      case m: False
      with v have m12: "month d = 12" by (simp add: valid_date_def)
      with dd have d31: "day d = 31" by (simp add: days_in_month_def)
      have "toordinal (next_day d) = days_before_year (year d + 1) + 1"
        using m False by (simp add: next_day_def toordinal_def days_before_month_def days_before_month_table_def)
      also have "\<dots> = days_before_year (year d) + (days_before_month (year d) 12 + 31) + 1"
        by (simp only: days_before_year_Suc days_before_december)
      finally show ?thesis using m12 d31 by (simp add: toordinal_def)
    qed
  qed
qed

lemma weekday_next_day:
  "valid_date d \<Longrightarrow> weekday (next_day d) = (weekday d + 1) mod 7"
proof -
  assume "valid_date d"
  then have "weekday (next_day d) = ((toordinal d + 6) + 1) mod 7"
    by (simp add: weekday_def toordinal_next_day)
  also have "\<dots> = ((toordinal d + 6) mod 7 + 1) mod 7"
    by (rule mod_add_left_eq [symmetric])
  finally show ?thesis by (simp add: weekday_def)
qed

section \<open>Digits and padding\<close>

lemma char_of_digits:
  "char_of (48::nat) = CHR ''0''" "char_of (49::nat) = CHR ''1''" "char_of (50::nat) = CHR ''2''"
  "char_of (51::nat) = CHR ''3''" "char_of (52::nat) = CHR ''4''" "char_of (53::nat) = CHR ''5''"
  "char_of (54::nat) = CHR ''6''" "char_of (55::nat) = CHR ''7''" "char_of (56::nat) = CHR ''8''"
  "char_of (57::nat) = CHR ''9''"
  by code_simp+

lemma digit_cases:
  "0 \<le> (n::int) \<Longrightarrow> n < 10 \<Longrightarrow> n \<in> {0, 1, 2, 3, 4, 5, 6, 7, 8, 9}"
  by simp arith

lemma is_digit_digit_char: "0 \<le> n \<Longrightarrow> n < 10 \<Longrightarrow> is_digit (digit_char n)"
  by (drule (1) digit_cases) (auto simp: is_digit_def digit_char_def char_of_digits)

lemma digit_val_digit_char: "0 \<le> n \<Longrightarrow> n < 10 \<Longrightarrow> digit_val (digit_char n) = n"
  by (simp add: digit_val_def digit_char_def)

lemma read_pad2: "0 \<le> n \<Longrightarrow> n < 100 \<Longrightarrow> read_digits (pad2 n) = n"
  by (simp add: read_digits_def pad2_def digit_val_digit_char)

lemma read_pad4:
  assumes "0 \<le> n" "n < 10000"
  shows "read_digits (pad4 n) = n"
proof -
  define a where "a = n div 10"
  define b where "b = a div 10"
  define c where "c = b div 10"
  have n: "n = a * 10 + n mod 10" by (simp add: a_def)
  have a: "a = b * 10 + a mod 10" by (simp add: b_def)
  have b: "b = c * 10 + b mod 10" by (simp add: c_def)
  have b': "n div 100 = b" unfolding b_def a_def by (simp add: zdiv_zmult2_eq [symmetric])
  have c': "n div 1000 = c" unfolding c_def b_def a_def by (simp add: zdiv_zmult2_eq [symmetric])
  have c10: "0 \<le> c" "c < 10" using assms unfolding c' [symmetric] by simp_all
  then have cm: "c mod 10 = c" by simp
  have "read_digits (pad4 n) = ((c * 10 + b mod 10) * 10 + a mod 10) * 10 + n mod 10"
    using c10 by (simp add: read_digits_def pad4_def digit_val_digit_char b' c' cm a_def [symmetric])
  also have "\<dots> = n" using n a b by simp
  finally show ?thesis .
qed

lemma pad2_digits: "list_all is_digit (pad2 n)"
  by (simp add: pad2_def is_digit_digit_char)

lemma pad4_digits: "list_all is_digit (pad4 n)"
  by (simp add: pad4_def is_digit_digit_char)

lemma weekday_anchor: "weekday \<lparr>year = 2023, month = 12, day = 25\<rparr> = 0"
  by (simp add: weekday_def toordinal_def days_before_year_def days_before_month_def days_before_month_table_def is_leap_def)

lemma weekday_range: "0 \<le> weekday d \<and> weekday d < 7"
  by (simp add: weekday_def)


section \<open>Parsing a date\<close>

text \<open>
  What \<^verbatim>\<open>parse_date_input\<close> does with each behaviour of the parser: blank text is
  \<^verbatim>\<open>None\<close> without a call of the parser, a parsed datetime gives its date, the three
  exceptions of the \<^verbatim>\<open>except\<close> clause give \<^verbatim>\<open>None\<close>.
\<close>

lemma parse_date_input_blank: "strip s = [] \<Longrightarrow> parse_date_input p s = Inr None"
  by (simp add: parse_date_input_def)

lemma parse_date_input_parsed:
  "strip s \<noteq> [] \<Longrightarrow> p (strip s) = Inr dt \<Longrightarrow> parse_date_input p s = Inr (Some (date_of dt))"
  by (auto simp: parse_date_input_def strip_def)

lemma parse_date_input_caught:
  "p (strip s) = Inl x \<Longrightarrow> x = ParserError \<or> x = ValueError \<or> x = TypeError \<Longrightarrow>
   parse_date_input p s = Inr None"
  by (auto simp: parse_date_input_def)

text \<open>
  C6. The claim: \<^verbatim>\<open>parse\<close> returns a failure indicator for empty, whitespace-only and
  unparseable text and never raises for bad input. The \<^verbatim>\<open>except\<close> clause of
  \<^verbatim>\<open>parse_date_input\<close> does not name \<open>OverflowError\<close>, which
  \<^verbatim>\<open>dateutil.parser.parse\<close> raises for a number too large for a C integer: on such
  a text the exception leaves \<^verbatim>\<open>parse_date_input\<close>.
\<close>

theorem parse_date_input_overflow_escapes:
  "strip s \<noteq> [] \<Longrightarrow> p (strip s) = Inl OverflowError \<Longrightarrow>
   parse_date_input p s = Inl OverflowError"
  by (auto simp: parse_date_input_def strip_def)

lemma strip_digits: "strip ''99999999999999999999'' = ''99999999999999999999''"
  by (simp add: strip_def isspace_def)

theorem parse_date_input_overflow_escapes_witness:
  "strip ''99999999999999999999'' \<noteq> [] \<and>
   (\<lambda>t. Inl OverflowError :: exc + datetime) (strip ''99999999999999999999'') = Inl OverflowError \<and>
   parse_date_input (\<lambda>t. Inl OverflowError) ''99999999999999999999'' = Inl OverflowError"
  using parse_date_input_overflow_escapes [of "''99999999999999999999''" "\<lambda>t. Inl OverflowError"]
  by (simp add: strip_digits)

section \<open>The open-session invariant is kept\<close>

lemma find_None_filter: "find P xs = None \<Longrightarrow> filter P xs = []"
  by (induction xs) (auto split: if_splits)

lemma find_Some_filter: "find P xs = Some x \<Longrightarrow> \<exists>ys. filter P xs = x # ys"
  by (induction xs) (auto split: if_splits)

lemma find_Some_mem: "find P xs = Some x \<Longrightarrow> x \<in> set xs \<and> P x"
  by (induction xs) (auto split: if_splits)

lemma next_id_fresh: "next_id ids \<notin> set ids"
proof
  assume a: "next_id ids \<in> set ids"
  then have ne: "ids \<noteq> []" by auto
  with a have "Max (set ids) + 1 \<in> set ids" by (simp add: next_id_def)
  then have "Max (set ids) + 1 \<le> Max (set ids)" by (intro Max_ge) auto
  then show False by simp
qed

lemma map_id_close:
  "map rs_id (map (\<lambda>r. if rs_id r = k then f r else r) rs) = map rs_id rs"
  if "\<And>r. rs_id (f r) = rs_id r"
  using that by (induction rs) auto

lemma length_filter_conj_le:
  "length (filter (\<lambda>r. P r \<and> Q r) xs) \<le> length (filter P xs)"
  by (induction xs) auto

lemma filter_conj_singleton:
  "filter P xs = [c] \<Longrightarrow> filter (\<lambda>r. P r \<and> rs_id r \<noteq> rs_id c) xs = []"
proof -
  assume a: "filter P xs = [c]"
  have "filter (\<lambda>r. P r \<and> rs_id r \<noteq> rs_id c) xs = filter (\<lambda>r. rs_id r \<noteq> rs_id c) (filter P xs)"
    by (simp add: conj_commute)
  then show ?thesis by (simp add: a)
qed


lemma open_invI:
  assumes "distinct (map rs_id rs)" and "\<And>r. r \<in> set rs \<Longrightarrow> int64 (rs_book_id r)"
    and "\<And>b. length (filter (is_open b) rs) \<le> 1"
  shows "open_inv rs"
  using assms by (simp add: open_inv_def)

lemma open_inv_distinct: "open_inv rs \<Longrightarrow> distinct (map rs_id rs)"
  by (simp add: open_inv_def)

lemma open_inv_int64: "open_inv rs \<Longrightarrow> r \<in> set rs \<Longrightarrow> int64 (rs_book_id r)"
  by (simp add: open_inv_def)

lemma open_inv_one: "open_inv rs \<Longrightarrow> length (filter (is_open b) rs) \<le> 1"
  by (simp add: open_inv_def)

lemma open_inv_append_new:
  assumes "distinct (map rs_id xs)" and "\<And>r. r \<in> set xs \<Longrightarrow> int64 (rs_book_id r)"
    and "\<And>b'. length (filter (is_open b') xs) \<le> 1"
    and "filter (is_open b) xs = []" and "rs_id n = next_id (map rs_id xs)"
    and "rs_book_id n = b" and "int64 b"
  shows "open_inv (xs @ [n])"
proof (rule open_invI)
  have "rs_id n \<notin> set (map rs_id xs)" using assms(5) next_id_fresh [of "map rs_id xs"] by simp
  with assms(1) show "distinct (map rs_id (xs @ [n]))" by simp
  show "int64 (rs_book_id r)" if "r \<in> set (xs @ [n])" for r
    using that assms(2,6,7) by auto
  show "length (filter (is_open b') (xs @ [n])) \<le> 1" for b'
  proof (cases "is_open b' n")
    case True
    with assms(6) have "b' = b" by (simp add: is_open_def)
    with assms(4) True show ?thesis by simp
  next
    case False
    with assms(3) [of b'] show ?thesis by simp
  qed
qed

lemma open_inv_closed:
  assumes "open_inv rs" and "\<And>r. rs_id (f r) = rs_id r" and "\<And>r. end_date (f r) \<noteq> None"
    and "\<And>r. rs_book_id (f r) = rs_book_id r"
  shows "distinct (map rs_id (map (\<lambda>r. if rs_id r = k then f r else r) rs))"
    and "length (filter (is_open b') (map (\<lambda>r. if rs_id r = k then f r else r) rs)) \<le> 1"
    and "r \<in> set (map (\<lambda>r. if rs_id r = k then f r else r) rs) \<Longrightarrow> int64 (rs_book_id r)"
proof -
  have "map rs_id (map (\<lambda>r. if rs_id r = k then f r else r) rs) = map rs_id rs"
    by (rule map_id_close) (rule assms(2))
  moreover have "distinct (map rs_id rs)" using assms(1) by (rule open_inv_distinct)
  ultimately show "distinct (map rs_id (map (\<lambda>r. if rs_id r = k then f r else r) rs))"
    by (simp only:)
  have "filter (is_open b') (map (\<lambda>r. if rs_id r = k then f r else r) rs)
        = filter (\<lambda>r. is_open b' r \<and> rs_id r \<noteq> k) rs"
    using assms(3) by (induction rs) (auto simp: is_open_def)
  moreover have "length (filter (\<lambda>r. is_open b' r \<and> rs_id r \<noteq> k) rs) \<le> length (filter (is_open b') rs)"
    by (rule length_filter_conj_le)
  moreover have "length (filter (is_open b') rs) \<le> 1" using assms(1) by (rule open_inv_one)
  ultimately show "length (filter (is_open b') (map (\<lambda>r. if rs_id r = k then f r else r) rs)) \<le> 1"
    by simp
  show "int64 (rs_book_id r)" if "r \<in> set (map (\<lambda>r. if rs_id r = k then f r else r) rs)"
  proof -
    from that obtain r0 where r0: "r0 \<in> set rs" and r: "r = (if rs_id r0 = k then f r0 else r0)"
      by auto
    have "rs_book_id r = rs_book_id r0" using r assms(4) by simp
    with open_inv_int64 [OF assms(1) r0] show ?thesis by simp
  qed
qed

lemma open_inv_closed_none:
  assumes "open_inv rs" and "find (is_open b) rs = Some c" and "\<And>r. end_date (f r) \<noteq> None"
  shows "filter (is_open b) (map (\<lambda>r. if rs_id r = rs_id c then f r else r) rs) = []"
proof -
  from assms(2) obtain ys where ys: "filter (is_open b) rs = c # ys"
    using find_Some_filter by fastforce
  moreover have "length (filter (is_open b) rs) \<le> 1" using assms(1) by (rule open_inv_one)
  ultimately have one: "filter (is_open b) rs = [c]" by simp
  have "filter (is_open b) (map (\<lambda>r. if rs_id r = rs_id c then f r else r) rs)
        = filter (\<lambda>r. is_open b r \<and> rs_id r \<noteq> rs_id c) rs"
    using assms(3) by (induction rs) (auto simp: is_open_def)
  with filter_conj_singleton [OF one] show ?thesis by simp
qed

lemma open_inv_start:
  assumes "open_inv (reading_sessions db)"
  shows "open_inv (reading_sessions (fst (start_reading_session e db b t)))"
proof (cases "resolve_date e t")
  case (Inl x)
  with assms show ?thesis by (simp add: start_reading_session_def)
next
  case (Inr d)
  show ?thesis
  proof (cases "int64 b")
    case False
    with Inr assms show ?thesis by (simp add: start_reading_session_def)
  next
    case fits: True
    show ?thesis
    proof (cases "find (is_open b) (reading_sessions db)")
      case None
      have "open_inv (reading_sessions db @
          [\<lparr>rs_id = next_id (map rs_id (reading_sessions db)), rs_book_id = b, start_date = d,
            end_date = None, session_notes = None, rs_created_date = env_now e\<rparr>])"
      proof (rule open_inv_append_new [where b = b])
        show "distinct (map rs_id (reading_sessions db))" using assms by (rule open_inv_distinct)
        show "int64 (rs_book_id r)" if "r \<in> set (reading_sessions db)" for r
          using assms that by (rule open_inv_int64)
        show "length (filter (is_open b') (reading_sessions db)) \<le> 1" for b'
          using assms by (rule open_inv_one)
        show "filter (is_open b) (reading_sessions db) = []" using None by (rule find_None_filter)
      qed (simp_all add: fits)
      with Inr None fits show ?thesis by (simp add: start_reading_session_def Let_def)
    next
      case (Some c)
      let ?xs = "map (\<lambda>r. if rs_id r = rs_id c then r\<lparr>end_date := Some d\<rparr> else r) (reading_sessions db)"
      have "open_inv (?xs @
          [\<lparr>rs_id = next_id (map rs_id ?xs), rs_book_id = b, start_date = d,
            end_date = None, session_notes = None, rs_created_date = env_now e\<rparr>])"
      proof (rule open_inv_append_new [where b = b])
        show "distinct (map rs_id ?xs)"
          by (rule open_inv_closed(1) [OF assms]) simp_all
        show "int64 (rs_book_id r)" if "r \<in> set ?xs" for r
          using that by (rule open_inv_closed(3) [OF assms, rotated -1]) simp_all
        show "length (filter (is_open b') ?xs) \<le> 1" for b'
          by (rule open_inv_closed(2) [OF assms]) simp_all
        show "filter (is_open b) ?xs = []"
          by (rule open_inv_closed_none [OF assms Some]) simp
      qed (simp_all add: fits)
      with Inr Some fits show ?thesis by (simp add: start_reading_session_def Let_def)
    qed
  qed
qed

lemma open_inv_end:
  assumes "open_inv (reading_sessions db)"
  shows "open_inv (reading_sessions (fst (end_reading_session e db b t n c)))"
proof (cases "resolve_date e t")
  case (Inl x)
  with assms show ?thesis by (simp add: end_reading_session_def)
next
  case (Inr d)
  show ?thesis
  proof (cases "find (is_open b) (reading_sessions db)")
    case None
    with Inr assms show ?thesis by (simp add: end_reading_session_def)
  next
    case (Some s)
    let ?f = "\<lambda>r. if n \<noteq> None \<and> n \<noteq> Some []
                   then r\<lparr>end_date := Some d, session_notes := n\<rparr>
                   else r\<lparr>end_date := Some d\<rparr>"
    let ?xs = "map (\<lambda>r. if rs_id r = rs_id s then ?f r else r) (reading_sessions db)"
    have "open_inv ?xs"
    proof (rule open_invI)
      show "distinct (map rs_id ?xs)"
        by (rule open_inv_closed(1) [OF assms]) simp_all
      show "int64 (rs_book_id r)" if "r \<in> set ?xs" for r
        using that by (rule open_inv_closed(3) [OF assms, rotated -1]) simp_all
      show "length (filter (is_open b') ?xs) \<le> 1" for b'
        by (rule open_inv_closed(2) [OF assms]) simp_all
    qed
    with Inr Some show ?thesis by (simp add: end_reading_session_def Let_def)
  qed
qed

lemma open_inv_filter: "open_inv rs \<Longrightarrow> open_inv (filter Q rs)"
proof -
  assume a: "open_inv rs"
  show ?thesis
  proof (rule open_invI)
    show "distinct (map rs_id (filter Q rs))"
      using open_inv_distinct [OF a] by (simp add: distinct_map_filter)
    show "int64 (rs_book_id r)" if "r \<in> set (filter Q rs)" for r
      using that open_inv_int64 [OF a] by simp
    show "length (filter (is_open b) (filter Q rs)) \<le> 1" for b
    proof -
      have "length (filter (is_open b) (filter Q rs)) \<le> length (filter (is_open b) rs)"
        by (induction rs) auto
      also have "\<dots> \<le> 1" using a by (rule open_inv_one)
      finally show ?thesis .
    qed
  qed
qed

lemma open_inv_exec:
  "open_inv (reading_sessions db) \<Longrightarrow> open_inv (reading_sessions (exec e c db))"
proof (cases c)
  case (AddBook t a bt i p y n)
  assume "open_inv (reading_sessions db)"
  with AddBook show ?thesis by (simp add: add_book_def Let_def)
next
  case (UpdateBookStatus b st)
  assume "open_inv (reading_sessions db)"
  with UpdateBookStatus show ?thesis by (simp add: update_book_status_def split: option.splits)
next
  case (DeleteBook b)
  assume "open_inv (reading_sessions db)"
  with DeleteBook show ?thesis
    by (cases "int64 b") (simp_all add: delete_book_def open_inv_filter split: option.splits)
next
  case (StartSession b d)
  assume "open_inv (reading_sessions db)"
  with StartSession show ?thesis by (simp add: open_inv_start)
next
  case (EndSession b d n c)
  assume "open_inv (reading_sessions db)"
  with EndSession show ?thesis by (simp add: open_inv_end)
next
  case (AddNote b nt c t p)
  assume "open_inv (reading_sessions db)"
  with AddNote show ?thesis by (simp add: add_note_def Let_def)
next
  case (DeleteNote n)
  assume "open_inv (reading_sessions db)"
  with DeleteNote show ?thesis by (simp add: delete_note_def split: option.splits)
qed

lemma open_inv_run:
  "open_inv (reading_sessions db) \<Longrightarrow> open_inv (reading_sessions (run cs db))"
  by (induction cs arbitrary: db) (auto simp: open_inv_exec)

lemma open_inv_card:
  assumes "open_inv rs"
  shows "card {r \<in> set rs. rs_book_id r = b \<and> end_date r = None} \<le> 1"
proof -
  have "{r \<in> set rs. rs_book_id r = b \<and> end_date r = None} = set (filter (is_open b) rs)"
    by (auto simp: is_open_def)
  then have "card {r \<in> set rs. rs_book_id r = b \<and> end_date r = None}
             \<le> length (filter (is_open b) rs)"
    by (simp only: card_length)
  also have "\<dots> \<le> 1" using assms by (rule open_inv_one)
  finally show ?thesis .
qed

text \<open>
  C1. For every book id, after any sequence of \<^verbatim>\<open>add_book\<close>, \<^verbatim>\<open>update_book_status\<close>,
  \<^verbatim>\<open>delete_book\<close>, \<^verbatim>\<open>start_reading_session\<close>, \<^verbatim>\<open>end_reading_session\<close>,
  \<^verbatim>\<open>add_note\<close> and \<^verbatim>\<open>delete_note\<close> on the empty database, whatever the arguments and
  whatever the parser, the date and the clock at each call, the set of the sessions of
  that book id with no end date has at most one element.
\<close>

theorem at_most_one_open_session:
  "card {r \<in> set (reading_sessions (run cs empty_db)). rs_book_id r = b \<and> end_date r = None} \<le> 1"
proof -
  have "open_inv (reading_sessions empty_db)" by (simp add: open_inv_def empty_db_def)
  then have "open_inv (reading_sessions (run cs empty_db))" by (rule open_inv_run)
  then show ?thesis by (rule open_inv_card)
qed


theorem at_most_one_open_session_witness:
  "card {r \<in> set (reading_sessions (run
      [(env1, AddBook ''Dune'' ''Frank Herbert'' PHYSICAL (Some ''9780441172719'') None None None),
       (env1, StartSession 1 None), (env2, StartSession 1 (Some ''2023-12-25''))] empty_db)).
      rs_book_id r = 1 \<and> end_date r = None} \<le> 1"
  by (rule at_most_one_open_session)

section \<open>Formatting a date\<close>

lemma decimal_pad4:
  assumes "1000 \<le> y" and "y \<le> 9999"
  shows "decimal (nat y) = pad4 y"
proof -
  define n where "n = nat y"
  have y: "y = int n" using assms by (simp add: n_def)
  have n: "1000 \<le> n" "n < 10000" using assms by (simp_all add: n_def)
  have big: "\<not> n < 10" "\<not> n div 10 < 10" "\<not> n div 100 < 10" "n div 1000 < 10"
    using n by simp_all
  have e: "n div 10 div 10 = n div 100" "n div 100 div 10 = n div 1000"
    by (simp_all add: div_mult2_eq [symmetric])
  have d1: "decimal n = decimal (n div 10) @ [digit_char (int (n mod 10))]"
    using big(1) by (subst decimal.simps) simp
  have d2: "decimal (n div 10) = decimal (n div 100) @ [digit_char (int (n div 10 mod 10))]"
    using big(2) by (subst decimal.simps) (simp add: e)
  have d3: "decimal (n div 100) = decimal (n div 1000) @ [digit_char (int (n div 100 mod 10))]"
    using big(3) by (subst decimal.simps) (simp add: e)
  have d4: "decimal (n div 1000) = [digit_char (int (n div 1000 mod 10))]"
    using big(4) by (subst decimal.simps) simp
  have "decimal n = [digit_char (int (n div 1000 mod 10)), digit_char (int (n div 100 mod 10)),
                     digit_char (int (n div 10 mod 10)), digit_char (int (n mod 10))]"
    by (simp add: d1 d2 d3 d4)
  also have "\<dots> = pad4 (int n)"
    by (simp add: pad4_def zdiv_int zmod_int)
  finally show ?thesis by (simp add: n_def [symmetric] y)
qed

lemma length_pad: "length (pad4 n) = 4" "length (pad2 n) = 2"
  by (simp_all add: pad4_def pad2_def)

text \<open>
  C7, as amended. For every calendar date with a year from 1000 to 9999,
  \<^verbatim>\<open>format_date_for_display\<close> renders four digits, a hyphen, two digits, a hyphen, two
  digits, a space and, in parentheses, the name at the date's weekday in the list
  \<open>Mon\<close>, \<open>Tue\<close>, \<open>Wed\<close>, \<open>Thu\<close>, \<open>Fri\<close>, \<open>Sat\<close>, \<open>Sun\<close>; the three runs of digits
  read back as the year, the month and the day. The weekday is the calendar's: it lies
  between 0 and 6, advances by one, modulo seven, from a date to the day after it, and
  is 0, Monday, on 2023-12-25, which is rendered \<open>2023-12-25 (Mon)\<close>. Without a date
  the text is empty.
\<close>

theorem format_date_for_display_weekday:
  "valid_date d \<Longrightarrow> 1000 \<le> year d \<Longrightarrow>
   (\<exists>Y M D.
      format_date_for_display (Some d)
        = Y @ ''-'' @ M @ ''-'' @ D @ '' (''
          @ [''Mon'', ''Tue'', ''Wed'', ''Thu'', ''Fri'', ''Sat'', ''Sun''] ! nat (weekday d)
          @ '')'' \<and>
      length Y = 4 \<and> list_all is_digit Y \<and> read_digits Y = year d \<and>
      length M = 2 \<and> list_all is_digit M \<and> read_digits M = month d \<and>
      length D = 2 \<and> list_all is_digit D \<and> read_digits D = day d) \<and>
   0 \<le> weekday d \<and> weekday d < 7 \<and>
   weekday (next_day d) = (weekday d + 1) mod 7 \<and>
   weekday \<lparr>year = 2023, month = 12, day = 25\<rparr> = 0 \<and>
   format_date_for_display (Some \<lparr>year = 2023, month = 12, day = 25\<rparr>) = ''2023-12-25 (Mon)'' \<and>
   format_date_for_display None = []"
proof -
  assume v: "valid_date d" and y1000: "1000 \<le> year d"
  have y: "0 \<le> year d" "year d < 10000" "year d \<le> 9999" using v by (simp_all add: valid_date_def)
  have m: "0 \<le> month d" "month d < 100" using v by (simp_all add: valid_date_def)
  have "days_in_month (year d) (month d) \<le> 31" by (simp add: days_in_month_def)
  with v have dd: "0 \<le> day d" "day d < 100" by (simp_all add: valid_date_def)
  have w: "0 \<le> weekday d" "weekday d < 7" by (simp_all add: weekday_def)
  then have "weekday d \<in> {0, 1, 2, 3, 4, 5, 6}" by simp arith
  then have name: "[''Mon'', ''Tue'', ''Wed'', ''Thu'', ''Fri'', ''Sat'', ''Sun''] ! nat (weekday d)
      = day_abbr (weekday d)"
    by (auto simp: day_abbr_def)
  have shape: "format_date_for_display (Some d)
        = pad4 (year d) @ ''-'' @ pad2 (month d) @ ''-'' @ pad2 (day d) @ '' (''
          @ [''Mon'', ''Tue'', ''Wed'', ''Thu'', ''Fri'', ''Sat'', ''Sun''] ! nat (weekday d)
          @ '')''"
    by (simp only: name) (simp add: format_date_for_display_def decimal_pad4 [OF y1000 y(3)])
  have ex: "\<exists>Y M D.
      format_date_for_display (Some d)
        = Y @ ''-'' @ M @ ''-'' @ D @ '' (''
          @ [''Mon'', ''Tue'', ''Wed'', ''Thu'', ''Fri'', ''Sat'', ''Sun''] ! nat (weekday d)
          @ '')'' \<and>
      length Y = 4 \<and> list_all is_digit Y \<and> read_digits Y = year d \<and>
      length M = 2 \<and> list_all is_digit M \<and> read_digits M = month d \<and>
      length D = 2 \<and> list_all is_digit D \<and> read_digits D = day d"
    by (intro exI [of _ "pad4 (year d)"] exI [of _ "pad2 (month d)"] exI [of _ "pad2 (day d)"]
        conjI shape length_pad pad4_digits pad2_digits read_pad4 read_pad2 y m dd)
  have f: "format_date_for_display (Some \<lparr>year = 2023, month = 12, day = 25\<rparr>) = ''2023-12-25 (Mon)''"
    by (simp add: format_date_for_display_def weekday_anchor decimal.simps pad2_def digit_char_def
        day_abbr_def char_of_digits)
  from ex w weekday_next_day [OF v] weekday_anchor f show ?thesis
    by (simp add: format_date_for_display_def)
qed

theorem format_date_for_display_weekday_witness:
  "valid_date \<lparr>year = 2024, month = 2, day = 29\<rparr> \<and>
   1000 \<le> year \<lparr>year = 2024, month = 2, day = 29\<rparr> \<and>
   format_date_for_display (Some \<lparr>year = 2024, month = 2, day = 29\<rparr>) = ''2024-02-29 (Thu)'' \<and>
   weekday (next_day \<lparr>year = 2024, month = 2, day = 29\<rparr>) = 4"
proof -
  have v: "valid_date \<lparr>year = 2024, month = 2, day = 29\<rparr>"
    by (simp add: valid_date_def days_in_month_def is_leap_def)
  have y: "1000 \<le> year \<lparr>year = 2024, month = 2, day = 29\<rparr>" by simp
  have w: "weekday \<lparr>year = 2024, month = 2, day = 29\<rparr> = 3"
    by (simp add: weekday_def toordinal_def days_before_year_def days_before_month_def
        days_before_month_table_def is_leap_def)
  have f: "format_date_for_display (Some \<lparr>year = 2024, month = 2, day = 29\<rparr>) = ''2024-02-29 (Thu)''"
    by (simp add: format_date_for_display_def w decimal.simps pad2_def digit_char_def
        day_abbr_def char_of_digits)
  show ?thesis
    using format_date_for_display_weekday [OF v y] v f by (simp add: w)
qed

text \<open>
  The claim as stated fails below the year 1000: the first of January 999 is rendered
  with a year of three digits.
\<close>

theorem format_date_for_display_year_counterexample:
  "valid_date \<lparr>year = 999, month = 1, day = 1\<rparr> \<and>
   format_date_for_display (Some \<lparr>year = 999, month = 1, day = 1\<rparr>) = ''999-01-01 (Tue)''"
proof -
  have w: "weekday \<lparr>year = 999, month = 1, day = 1\<rparr> = 1"
    by (simp add: weekday_def toordinal_def days_before_year_def days_before_month_def
        days_before_month_table_def is_leap_def)
  show ?thesis
    by (simp add: valid_date_def days_in_month_def format_date_for_display_def w decimal.simps
        pad2_def digit_char_def day_abbr_def char_of_digits)
qed

section \<open>The example databases\<close>

lemma db_one_book_eq:
  "db_one_book = \<lparr>books = [\<lparr>b_id = 1, title = ''Dune'', author = ''Frank Herbert'',
      isbn = Some ''9780441172719'', publisher = None, publication_year = None, pages = None,
      book_type = PHYSICAL, status = TO_READ, added_date = 5, last_modified = 5\<rparr>],
    reading_sessions = [], notes_table = []\<rparr>"
  by (simp add: db_one_book_def empty_db_def add_book_def binds_def next_id_def env1_def Let_def)

lemma db_reading_eq:
  "db_reading = \<lparr>books = [dune], reading_sessions = [first_session], notes_table = []\<rparr>"
  by (simp add: db_reading_def db_one_book_eq start_reading_session_def resolve_date_def
      is_open_def next_id_def env1_def set_status_def Let_def dune_def first_session_def
      int64_def)

lemma open_inv_db_reading: "open_inv (reading_sessions db_reading)"
proof -
  have "open_inv (reading_sessions empty_db)" by (simp add: open_inv_def empty_db_def)
  then have "open_inv (reading_sessions (run [(env1, StartSession 1 None)] (run
      [(env1, AddBook ''Dune'' ''Frank Herbert'' PHYSICAL (Some ''9780441172719'') None None None)]
      empty_db)))"
    by (intro open_inv_run)
  then show ?thesis by (simp only: db_reading_def db_one_book_def)
qed


lemma parse_christmas:
  "parse_date_input (env_parse env2) ''2023-12-25'' = Inr (Some christmas)"
  by (simp add: parse_date_input_def strip_def isspace_def env2_def example_parse_def
      date_of_def christmas_def)

section \<open>Starting a session\<close>

lemma find_map_pk:
  assumes "\<And>b. b_id (f b) = b_id b"
  shows "find (\<lambda>b. b_id b = k) (map (\<lambda>b. if b_id b = k' then f b else b) xs)
         = map_option (\<lambda>b. if b_id b = k' then f b else b) (find (\<lambda>b. b_id b = k) xs)"
  using assms by (induction xs) auto

lemma find_pk_None: "(find (\<lambda>b. b_id b = k) xs = None) = (k \<notin> b_id ` set xs)"
  by (induction xs) auto

lemma b_id_set_status: "b_id (set_status e st b) = b_id b"
  by (simp add: set_status_def)

lemma status_set_status: "status (set_status e st b) = st"
  by (simp add: set_status_def)

lemma parse_nonempty: "parse_date_input p t = Inr (Some d) \<Longrightarrow> t \<noteq> []"
  by (auto simp: parse_date_input_def)

lemma resolve_date_parsed:
  "parse_date_input (env_parse e) t = Inr (Some d) \<Longrightarrow> resolve_date e (Some t) = Inr d"
  by (frule parse_nonempty) (simp add: resolve_date_def)

lemma start_reading_session_eq:
  assumes "resolve_date e t = Inr d" and "int64 k"
  shows "start_reading_session e db k t =
    (let closed = (case find (is_open k) (reading_sessions db) of
                     None \<Rightarrow> reading_sessions db
                   | Some c \<Rightarrow> map (\<lambda>r. if rs_id r = rs_id c then r\<lparr>end_date := Some d\<rparr> else r)
                                    (reading_sessions db));
         new_session = \<lparr>rs_id = next_id (map rs_id closed), rs_book_id = k, start_date = d,
                        end_date = None, session_notes = None, rs_created_date = env_now e\<rparr>
     in (db\<lparr>books := (case find (\<lambda>b. b_id b = k) (books db) of
                         None \<Rightarrow> books db
                       | Some book \<Rightarrow> map (\<lambda>b. if b_id b = b_id book then set_status e READING b else b)
                                          (books db)),
             reading_sessions := closed @ [new_session]\<rparr>, Inr new_session))"
  using assms by (simp add: start_reading_session_def Let_def)

text \<open>
  C2. For a stored book with an open session, in a database that satisfies the
  open-session invariant, \<^verbatim>\<open>start_reading_session\<close> with a start date text that parses
  sets the end date of the open session to the new start date, appends exactly one new
  session with that start date, no end date and a fresh key, which is then the only open
  session of the book, sets the status of the book to \<open>READING\<close>, and raises the number of
  the book's sessions and of all sessions by exactly one.
\<close>

theorem start_reading_session_closes_open:
  assumes inv: "open_inv (reading_sessions db)"
    and book: "find (\<lambda>b. b_id b = k) (books db) = Some book"
    and cur: "find (is_open k) (reading_sessions db) = Some c"
    and date: "parse_date_input (env_parse e) t = Inr (Some d)"
  shows "\<exists>db' new.
    start_reading_session e db k (Some t) = (db', Inr new) \<and>
    reading_sessions db'
      = map (\<lambda>r. if rs_id r = rs_id c then r\<lparr>end_date := Some d\<rparr> else r) (reading_sessions db)
        @ [new] \<and>
    c\<lparr>end_date := Some d\<rparr> \<in> set (reading_sessions db') \<and>
    rs_book_id new = k \<and> start_date new = d \<and> end_date new = None \<and>
    rs_id new \<notin> rs_id ` set (reading_sessions db) \<and>
    filter (is_open k) (reading_sessions db') = [new] \<and>
    length (filter (\<lambda>r. rs_book_id r = k) (reading_sessions db'))
      = length (filter (\<lambda>r. rs_book_id r = k) (reading_sessions db)) + 1 \<and>
    length (reading_sessions db') = length (reading_sessions db) + 1 \<and>
    get_book_by_id db' k = Some (set_status e READING book) \<and>
    status (set_status e READING book) = READING"
proof -
  let ?close = "\<lambda>r. if rs_id r = rs_id c then r\<lparr>end_date := Some d\<rparr> else r"
  let ?xs = "map ?close (reading_sessions db)"
  let ?new = "\<lparr>rs_id = next_id (map rs_id ?xs), rs_book_id = k, start_date = d,
               end_date = None, session_notes = None, rs_created_date = env_now e\<rparr>"
  let ?books = "map (\<lambda>b. if b_id b = b_id book then set_status e READING b else b) (books db)"
  let ?db' = "db\<lparr>books := ?books, reading_sessions := ?xs @ [?new]\<rparr>"
  have res: "resolve_date e (Some t) = Inr d" using date by (rule resolve_date_parsed)
  have cmem: "c \<in> set (reading_sessions db)" using cur find_Some_mem by fastforce
  have "rs_book_id c = k" using cur find_Some_mem [of "is_open k"] by (fastforce simp: is_open_def)
  with open_inv_int64 [OF inv cmem] have fits: "int64 k" by simp
  have run: "start_reading_session e db k (Some t) = (?db', Inr ?new)"
    by (simp add: start_reading_session_eq [OF res fits] book cur Let_def)
  from cmem have "?close c \<in> ?close ` set (reading_sessions db)" by (rule imageI)
  then have closed: "c\<lparr>end_date := Some d\<rparr> \<in> set (reading_sessions ?db')" by simp
  have ids: "map rs_id ?xs = map rs_id (reading_sessions db)"
    by (rule map_id_close) simp
  have "next_id (map rs_id (reading_sessions db)) \<notin> set (map rs_id (reading_sessions db))"
    by (rule next_id_fresh)
  then have "next_id (map rs_id ?xs) \<notin> rs_id ` set (reading_sessions db)"
    unfolding ids by simp
  then have fresh: "rs_id ?new \<notin> rs_id ` set (reading_sessions db)" by simp
  have none: "filter (is_open k) ?xs = []"
    by (rule open_inv_closed_none [OF inv cur]) simp
  have "is_open k ?new" by (simp add: is_open_def)
  with none have one: "filter (is_open k) (reading_sessions ?db') = [?new]" by simp
  have "filter (\<lambda>r. rs_book_id r = k) ?xs = map ?close (filter (\<lambda>r. rs_book_id r = k) (reading_sessions db))"
    by (induction "reading_sessions db") (auto simp: filter_map comp_def)
  then have cnt: "length (filter (\<lambda>r. rs_book_id r = k) (reading_sessions ?db'))
      = length (filter (\<lambda>r. rs_book_id r = k) (reading_sessions db)) + 1"
    by simp
  have bk: "b_id book = k" using book find_Some_mem by fastforce
  have "find (\<lambda>b. b_id b = k) ?books
        = map_option (\<lambda>b. if b_id b = b_id book then set_status e READING b else b)
            (find (\<lambda>b. b_id b = k) (books db))"
    by (rule find_map_pk) (rule b_id_set_status)
  then have get: "get_book_by_id ?db' k = Some (set_status e READING book)"
    by (simp add: get_book_by_id_def book)
  show ?thesis
    using run closed fresh one cnt get status_set_status [of e READING book]
    by (intro exI [of _ ?db'] exI [of _ ?new]) simp
qed


theorem start_reading_session_closes_open_witness:
  "open_inv (reading_sessions db_reading) \<and>
   find (\<lambda>b. b_id b = 1) (books db_reading) = Some dune \<and>
   find (is_open 1) (reading_sessions db_reading) = Some first_session \<and>
   parse_date_input (env_parse env2) ''2023-12-25'' = Inr (Some christmas) \<and>
   (\<exists>db' new.
    start_reading_session env2 db_reading 1 (Some ''2023-12-25'') = (db', Inr new) \<and>
    reading_sessions db'
      = map (\<lambda>r. if rs_id r = rs_id first_session then r\<lparr>end_date := Some christmas\<rparr> else r)
          (reading_sessions db_reading)
        @ [new] \<and>
    first_session\<lparr>end_date := Some christmas\<rparr> \<in> set (reading_sessions db') \<and>
    rs_book_id new = 1 \<and> start_date new = christmas \<and> end_date new = None \<and>
    rs_id new \<notin> rs_id ` set (reading_sessions db_reading) \<and>
    filter (is_open 1) (reading_sessions db') = [new] \<and>
    length (filter (\<lambda>r. rs_book_id r = 1) (reading_sessions db'))
      = length (filter (\<lambda>r. rs_book_id r = 1) (reading_sessions db_reading)) + 1 \<and>
    length (reading_sessions db') = length (reading_sessions db_reading) + 1 \<and>
    get_book_by_id db' 1 = Some (set_status env2 READING dune) \<and>
    status (set_status env2 READING dune) = READING)"
proof -
  have h1: "open_inv (reading_sessions db_reading)" by (rule open_inv_db_reading)
  have h2: "find (\<lambda>b. b_id b = 1) (books db_reading) = Some dune"
    by (simp add: db_reading_eq dune_def)
  have h3: "find (is_open 1) (reading_sessions db_reading) = Some first_session"
    by (simp add: db_reading_eq first_session_def is_open_def)
  have h4: "parse_date_input (env_parse env2) ''2023-12-25'' = Inr (Some christmas)"
    by (rule parse_christmas)
  show ?thesis
    by (intro conjI, rule h1, rule h2, rule h3, rule h4,
        rule start_reading_session_closes_open [OF h1 h2 h3 h4])
qed

text \<open>
  C10, as amended. For a book id that no stored book has and a date that is absent or
  parses: when the id fits the 64-bit range, \<^verbatim>\<open>start_reading_session\<close> raises nothing,
  closes the open session recorded under the id if there is one, and inserts and returns
  a new session with that book id, the resolved start date, no end date and the next
  key; the books and the notes are as before and the id still names no book, so that
  only the update of the status is skipped. When the id does not fit, the call raises
  \<open>OverflowError\<close> and the database is unchanged.
\<close>

theorem start_reading_session_absent_book:
  assumes absent: "k \<notin> b_id ` set (books db)" and date: "resolve_date e t = Inr d"
  shows "(int64 k \<longrightarrow>
      (\<exists>db' new.
         start_reading_session e db k t = (db', Inr new) \<and>
         new = \<lparr>rs_id = next_id (map rs_id (reading_sessions db)), rs_book_id = k,
                start_date = d, end_date = None, session_notes = None,
                rs_created_date = env_now e\<rparr> \<and>
         db' = db\<lparr>reading_sessions :=
                   (case find (is_open k) (reading_sessions db) of
                      None \<Rightarrow> reading_sessions db
                    | Some c \<Rightarrow> map (\<lambda>r. if rs_id r = rs_id c then r\<lparr>end_date := Some d\<rparr> else r)
                                     (reading_sessions db))
                   @ [new]\<rparr> \<and>
         books db' = books db \<and> notes_table db' = notes_table db \<and>
         get_book_by_id db' k = None)) \<and>
    (\<not> int64 k \<longrightarrow> start_reading_session e db k t = (db, Inl OverflowError))"
proof (cases "int64 k")
  case False
  with date show ?thesis by (simp add: start_reading_session_def)
next
  case True
  have none: "find (\<lambda>b. b_id b = k) (books db) = None"
    using absent by (simp add: find_pk_None)
  have ids: "map rs_id (case find (is_open k) (reading_sessions db) of
                      None \<Rightarrow> reading_sessions db
                    | Some c \<Rightarrow> map (\<lambda>r. if rs_id r = rs_id c then r\<lparr>end_date := Some d\<rparr> else r)
                                     (reading_sessions db))
             = map rs_id (reading_sessions db)"
  proof (cases "find (is_open k) (reading_sessions db)")
    case None
    then show ?thesis by simp
  next
    case (Some c)
    have "map rs_id (map (\<lambda>r. if rs_id r = rs_id c then r\<lparr>end_date := Some d\<rparr> else r)
                       (reading_sessions db)) = map rs_id (reading_sessions db)"
      by (rule map_id_close) simp
    with Some show ?thesis by (simp only: option.case)
  qed
  show ?thesis
    using True
    by (simp only: start_reading_session_eq [OF date True] Let_def ids)
       (simp add: none get_book_by_id_def)
qed

theorem start_reading_session_absent_book_witness:
  "(7::int) \<notin> b_id ` set (books db_one_book) \<and> too_big \<notin> b_id ` set (books db_one_book) \<and>
   resolve_date env2 None = Inr (env_today env2) \<and> int64 7 \<and> \<not> int64 too_big \<and>
   (\<exists>db' new.
         start_reading_session env2 db_one_book 7 None = (db', Inr new) \<and>
         new = \<lparr>rs_id = next_id (map rs_id (reading_sessions db_one_book)), rs_book_id = 7,
                start_date = env_today env2, end_date = None, session_notes = None,
                rs_created_date = env_now env2\<rparr> \<and>
         db' = db_one_book\<lparr>reading_sessions :=
                   (case find (is_open 7) (reading_sessions db_one_book) of
                      None \<Rightarrow> reading_sessions db_one_book
                    | Some c \<Rightarrow> map (\<lambda>r. if rs_id r = rs_id c
                                           then r\<lparr>end_date := Some (env_today env2)\<rparr> else r)
                                     (reading_sessions db_one_book))
                   @ [new]\<rparr> \<and>
         books db' = books db_one_book \<and> notes_table db' = notes_table db_one_book \<and>
         get_book_by_id db' 7 = None) \<and>
   start_reading_session env2 db_one_book too_big None = (db_one_book, Inl OverflowError)"
proof -
  have h1: "(7::int) \<notin> b_id ` set (books db_one_book)" by (simp add: db_one_book_eq)
  have h1': "too_big \<notin> b_id ` set (books db_one_book)" by (simp add: db_one_book_eq too_big_def)
  have h2: "resolve_date env2 None = Inr (env_today env2)" by (simp add: resolve_date_def)
  have h3: "int64 7" by (simp add: int64_def)
  have h4: "\<not> int64 too_big" by (simp add: int64_def too_big_def)
  show ?thesis
    by (intro conjI, rule h1, rule h1', rule h2, rule h3, rule h4,
        rule start_reading_session_absent_book [OF h1 h2, THEN conjunct1, rule_format, OF h3],
        rule start_reading_session_absent_book [OF h1' h2, THEN conjunct2, rule_format, OF h4])
qed

text \<open>
  The claim as stated fails for an id outside the 64-bit range: no stored book has the
  id \<open>2 ^ 63\<close>, and the call raises \<open>OverflowError\<close> and creates no session.
\<close>

theorem start_reading_session_too_big_counterexample:
  "too_big \<notin> b_id ` set (books db_one_book) \<and>
   start_reading_session env2 db_one_book too_big None = (db_one_book, Inl OverflowError)"
  by (simp add: db_one_book_eq too_big_def start_reading_session_def resolve_date_def int64_def)

section \<open>Ending a session\<close>

lemma resolve_date_unparsed:
  "t \<noteq> [] \<Longrightarrow> parse_date_input (env_parse e) t = Inr None \<Longrightarrow>
   resolve_date e (Some t) = Inl ValueError"
  by (simp add: resolve_date_def)





text \<open>
  C9, as amended. For a stored book with an open session and a date that is absent or
  parses, \<^verbatim>\<open>end_reading_session\<close> with \<^verbatim>\<open>completed\<close> true sets the status of the book to
  \<open>COMPLETED\<close> and with \<^verbatim>\<open>completed\<close> false leaves it unchanged; in both cases every
  other column of the book is unchanged except \<^verbatim>\<open>last_modified\<close>, which is set to the
  time of the call when the status changes.
\<close>

theorem end_reading_session_status:
  assumes book: "find (\<lambda>b. b_id b = k) (books db) = Some book"
    and cur: "find (is_open k) (reading_sessions db) = Some c"
    and date: "resolve_date e t = Inr d"
  shows "\<exists>db' b'.
    end_reading_session e db k t n completed = (db', Inr ()) \<and>
    get_book_by_id db' k = Some b' \<and>
    status b' = (if completed then COMPLETED else status book) \<and>
    b_id b' = b_id book \<and> title b' = title book \<and> author b' = author book \<and>
    isbn b' = isbn book \<and> publisher b' = publisher book \<and>
    publication_year b' = publication_year book \<and> pages b' = pages book \<and>
    book_type b' = book_type book \<and> added_date b' = added_date book \<and>
    last_modified b' = (if completed \<and> status book \<noteq> COMPLETED then env_now e
                        else last_modified book)"
proof (cases completed)
  case False
  with book cur date show ?thesis
    by (simp add: end_reading_session_def get_book_by_id_def Let_def)
next
  case True
  let ?b' = "set_status e COMPLETED book"
  let ?books = "map (\<lambda>b. if b_id b = b_id book then set_status e COMPLETED b else b) (books db)"
  have "find (\<lambda>b. b_id b = k) ?books
        = map_option (\<lambda>b. if b_id b = b_id book then set_status e COMPLETED b else b)
            (find (\<lambda>b. b_id b = k) (books db))"
    by (rule find_map_pk) (rule b_id_set_status)
  then have get: "find (\<lambda>b. b_id b = k) ?books = Some ?b'" by (simp add: book)
  have "\<exists>db'. end_reading_session e db k t n completed = (db', Inr ()) \<and>
          get_book_by_id db' k = Some ?b'"
    using True book cur date get
    by (simp add: end_reading_session_def get_book_by_id_def Let_def)
  then obtain db' where "end_reading_session e db k t n completed = (db', Inr ())"
    and "get_book_by_id db' k = Some ?b'" by blast
  then show ?thesis
    using True by (intro exI [of _ db'] exI [of _ ?b']) (simp add: set_status_def)
qed

theorem end_reading_session_status_witness:
  "find (\<lambda>b. b_id b = 1) (books db_reading) = Some dune \<and>
   find (is_open 1) (reading_sessions db_reading) = Some first_session \<and>
   resolve_date env2 (Some ''2023-12-25'') = Inr christmas \<and>
   (\<exists>db' b'.
    end_reading_session env2 db_reading 1 (Some ''2023-12-25'') (Some ''done'') True = (db', Inr ()) \<and>
    get_book_by_id db' 1 = Some b' \<and>
    status b' = (if True then COMPLETED else status dune) \<and>
    b_id b' = b_id dune \<and> title b' = title dune \<and> author b' = author dune \<and>
    isbn b' = isbn dune \<and> publisher b' = publisher dune \<and>
    publication_year b' = publication_year dune \<and> pages b' = pages dune \<and>
    book_type b' = book_type dune \<and> added_date b' = added_date dune \<and>
    last_modified b' = (if True \<and> status dune \<noteq> COMPLETED then env_now env2
                        else last_modified dune))"
proof -
  have h1: "find (\<lambda>b. b_id b = 1) (books db_reading) = Some dune"
    by (simp add: db_reading_eq dune_def)
  have h2: "find (is_open 1) (reading_sessions db_reading) = Some first_session"
    by (simp add: db_reading_eq first_session_def is_open_def)
  have h3: "resolve_date env2 (Some ''2023-12-25'') = Inr christmas"
    by (rule resolve_date_parsed) (rule parse_christmas)
  show ?thesis
    by (intro conjI, rule h1, rule h2, rule h3, rule end_reading_session_status [OF h1 h2 h3])
qed

text \<open>
  The claim as stated fails on \<^verbatim>\<open>last_modified\<close>: ending the session of a book that is
  being read, with \<^verbatim>\<open>completed\<close> true, moves it from 5 to the time of the call, 1000.
\<close>

theorem end_reading_session_last_modified_counterexample:
  "find (\<lambda>b. b_id b = 1) (books db_reading) = Some dune \<and>
   find (is_open 1) (reading_sessions db_reading) = Some first_session \<and>
   get_book_by_id (fst (end_reading_session env2 db_reading 1 None None True)) 1
     = Some (dune\<lparr>status := COMPLETED, last_modified := 1000\<rparr>) \<and>
   last_modified dune = 5"
  by (simp add: db_reading_eq end_reading_session_def resolve_date_def is_open_def
      first_session_def dune_def set_status_def get_book_by_id_def env2_def Let_def)

section \<open>Adding a book\<close>

text \<open>
  C5, as amended. In a database that holds a book with an ISBN, \<^verbatim>\<open>add_book\<close> with the
  same ISBN fails: with the integrity error of the unique constraint when the
  publication year and the page count are absent or fit the 64-bit range, with
  \<open>OverflowError\<close> when one of them does not. In both cases the database, the first book
  with it, is unchanged.
\<close>

theorem add_book_duplicate_isbn:
  "b \<in> set (books db) \<Longrightarrow> isbn b = Some i \<Longrightarrow>
   add_book e db t a bt (Some i) p y n
   = (db, Inl (if binds y \<and> binds n then IntegrityError else OverflowError))"
  by (force simp: add_book_def Let_def)

theorem add_book_duplicate_isbn_witness:
  "dune\<lparr>status := TO_READ\<rparr> \<in> set (books db_one_book) \<and>
   isbn (dune\<lparr>status := TO_READ\<rparr>) = Some ''9780441172719'' \<and>
   add_book env2 db_one_book ''Dune Messiah'' ''Frank Herbert'' EBOOK (Some ''9780441172719'')
     None (Some 1969) (Some 256) = (db_one_book, Inl IntegrityError)"
proof -
  have h1: "dune\<lparr>status := TO_READ\<rparr> \<in> set (books db_one_book)"
    by (simp add: db_one_book_eq dune_def)
  have h2: "isbn (dune\<lparr>status := TO_READ\<rparr>) = Some ''9780441172719''"
    by (simp add: dune_def)
  show ?thesis
    using add_book_duplicate_isbn [OF h1 h2, of env2 "''Dune Messiah''" "''Frank Herbert''" EBOOK
        None "Some 1969" "Some 256"] h1 h2
    by (simp add: binds_def int64_def)
qed

text \<open>
  The claim as stated fails when the page count does not fit: with the ISBN of the stored
  book and \<open>2 ^ 63\<close> pages the call raises \<open>OverflowError\<close>, not the integrity error.
\<close>

theorem add_book_duplicate_isbn_too_big_counterexample:
  "dune\<lparr>status := TO_READ\<rparr> \<in> set (books db_one_book) \<and>
   isbn (dune\<lparr>status := TO_READ\<rparr>) = Some ''9780441172719'' \<and>
   add_book env2 db_one_book ''Dune Messiah'' ''Frank Herbert'' EBOOK (Some ''9780441172719'')
     None None (Some too_big) = (db_one_book, Inl OverflowError)"
  by (simp add: db_one_book_eq dune_def add_book_def binds_def int64_def too_big_def Let_def)

text \<open>
  C4, as amended. \<^verbatim>\<open>add_book\<close> does not check the title and the author: whatever they
  are, the empty text included, it stores the book when the ISBN is absent or not yet
  stored and the publication year and the page count are absent or fit the 64-bit
  range. The required-field check is the form's: when the title or the author is empty
  after stripping, \<^verbatim>\<open>_submit_form\<close> shows \<open>Title is required\<close> or \<open>Author is required\<close>
  and submits nothing, so that no book is created.
\<close>

theorem add_book_required_fields:
  "((isbn' = None \<or> isbn' \<notin> set (map isbn (books db))) \<and> binds y \<and> binds n \<longrightarrow>
      (\<exists>book. add_book e db t a bt isbn' p y n = (db\<lparr>books := books db @ [book]\<rparr>, Inr book) \<and>
         title book = t \<and> author book = a)) \<and>
   (strip (title_input f) = [] \<or> strip (author_input f) = [] \<longrightarrow>
      (submit_form py_int f = Inl ''Title is required'' \<or>
       submit_form py_int f = Inl ''Author is required'') \<and>
      action_add_book e py_int db f = db)"
  by (auto simp: add_book_def submit_form_def action_add_book_def Let_def)

theorem add_book_required_fields_witness:
  "((None = (None :: string option) \<or> None \<notin> set (map isbn (books db_one_book))) \<and>
    binds None \<and> binds None) \<and>
   (\<exists>book. add_book env2 db_one_book [] [] EBOOK None None None None
            = (db_one_book\<lparr>books := books db_one_book @ [book]\<rparr>, Inr book) \<and>
          title book = [] \<and> author book = []) \<and>
   (strip (title_input blank_title_form) = [] \<or> strip (author_input blank_title_form) = []) \<and>
   (submit_form (\<lambda>s. None) blank_title_form = Inl ''Title is required'' \<or>
    submit_form (\<lambda>s. None) blank_title_form = Inl ''Author is required'') \<and>
   action_add_book env2 (\<lambda>s. None) db_one_book blank_title_form = db_one_book"
proof -
  have h1: "(None = (None :: string option) \<or> None \<notin> set (map isbn (books db_one_book))) \<and>
    binds None \<and> binds None"
    by (simp add: binds_def)
  have h2: "strip (title_input blank_title_form) = [] \<or> strip (author_input blank_title_form) = []"
    by (simp add: blank_title_form_def strip_def isspace_def)
  note t = add_book_required_fields [where isbn' = None and db = db_one_book and e = env2
      and t = "[]" and a = "[]" and bt = EBOOK and p = None and y = None and n = None
      and f = blank_title_form and py_int = "\<lambda>s. None"]
  show ?thesis
    by (intro conjI, rule h1 [THEN conjunct1], rule h1 [THEN conjunct2, THEN conjunct1],
        rule h1 [THEN conjunct2, THEN conjunct2],
        rule t [THEN conjunct1, rule_format, OF h1], rule h2,
        rule t [THEN conjunct2, rule_format, OF h2, THEN conjunct1],
        rule t [THEN conjunct2, rule_format, OF h2, THEN conjunct2])
qed

text \<open>
  The claim as stated fails: \<^verbatim>\<open>add_book\<close> with an empty title and an empty author
  stores the book and returns it.
\<close>

theorem add_book_empty_title_counterexample:
  "add_book env1 empty_db [] [] PHYSICAL None None None None
   = (\<lparr>books = [\<lparr>b_id = 1, title = [], author = [], isbn = None, publisher = None,
                  publication_year = None, pages = None, book_type = PHYSICAL,
                  status = TO_READ, added_date = 5, last_modified = 5\<rparr>],
       reading_sessions = [], notes_table = []\<rparr>,
      Inr \<lparr>b_id = 1, title = [], author = [], isbn = None, publisher = None,
           publication_year = None, pages = None, book_type = PHYSICAL,
           status = TO_READ, added_date = 5, last_modified = 5\<rparr>)"
  by (simp add: add_book_def binds_def empty_db_def next_id_def env1_def Let_def)

section \<open>Deleting a book\<close>

lemma find_pk_Some: "find (\<lambda>b. b_id b = k) xs = Some b \<Longrightarrow> b_id b = k"
  by (induction xs) (auto split: if_splits)

text \<open>
  C8, as amended. For a book id that fits the 64-bit range: when a stored book has it,
  \<^verbatim>\<open>delete_book\<close> returns \<^verbatim>\<open>True\<close> and removes the book, every session and every note
  with that book id, and nothing else, so that afterwards \<^verbatim>\<open>get_book_by_id\<close>,
  \<^verbatim>\<open>get_reading_sessions\<close> and \<^verbatim>\<open>get_notes_for_book\<close> find nothing under the id; when
  no stored book has it, \<^verbatim>\<open>delete_book\<close> returns \<^verbatim>\<open>False\<close>, raises nothing and leaves
  the database unchanged. For an id that does not fit, the call raises
  \<open>OverflowError\<close> and the database is unchanged.
\<close>

theorem delete_book_cascade:
  "(int64 k \<and> k \<in> b_id ` set (books db) \<longrightarrow>
      (\<exists>db'. delete_book db k = (db', Inr True) \<and>
         books db' = filter (\<lambda>b. b_id b \<noteq> k) (books db) \<and>
         reading_sessions db' = filter (\<lambda>r. rs_book_id r \<noteq> k) (reading_sessions db) \<and>
         notes_table db' = filter (\<lambda>n. n_book_id n \<noteq> k) (notes_table db) \<and>
         get_book_by_id db' k = None \<and>
         get_reading_sessions db' k = [] \<and>
         get_notes_for_book db' k = [])) \<and>
   (int64 k \<and> k \<notin> b_id ` set (books db) \<longrightarrow> delete_book db k = (db, Inr False)) \<and>
   (\<not> int64 k \<longrightarrow> delete_book db k = (db, Inl OverflowError))"
proof (cases "int64 k")
  case False
  then show ?thesis by (simp add: delete_book_def)
next
  case fits: True
  show ?thesis
  proof (cases "find (\<lambda>b. b_id b = k) (books db)")
    case None
    then have "k \<notin> b_id ` set (books db)" by (simp add: find_pk_None)
    with None fits show ?thesis by (simp add: delete_book_def)
  next
    case (Some book)
    then have k: "b_id book = k" by (rule find_pk_Some)
    from Some have "find (\<lambda>b. b_id b = k) (books db) \<noteq> None" by simp
    then have mem: "k \<in> b_id ` set (books db)" by (simp add: find_pk_None)
    have "find (\<lambda>b. b_id b = k) (filter (\<lambda>b. b_id b \<noteq> k) (books db)) = None"
      by (auto simp: find_pk_None)
    moreover have "filter (\<lambda>r. rs_book_id r = k) (filter (\<lambda>r. rs_book_id r \<noteq> k) (reading_sessions db)) = []"
      by (induction "reading_sessions db") auto
    moreover have "filter (\<lambda>n. n_book_id n = k) (filter (\<lambda>n. n_book_id n \<noteq> k) (notes_table db)) = []"
      by (induction "notes_table db") auto
    ultimately show ?thesis
      using Some k mem fits
      by (simp add: delete_book_def get_book_by_id_def get_reading_sessions_def
          get_notes_for_book_def)
  qed
qed

theorem delete_book_cascade_witness:
  "(int64 1 \<and> (1::int) \<in> b_id ` set (books db_reading)) \<and>
   (\<exists>db'. delete_book db_reading 1 = (db', Inr True) \<and>
         books db' = filter (\<lambda>b. b_id b \<noteq> 1) (books db_reading) \<and>
         reading_sessions db' = filter (\<lambda>r. rs_book_id r \<noteq> 1) (reading_sessions db_reading) \<and>
         notes_table db' = filter (\<lambda>n. n_book_id n \<noteq> 1) (notes_table db_reading) \<and>
         get_book_by_id db' 1 = None \<and>
         get_reading_sessions db' 1 = [] \<and>
         get_notes_for_book db' 1 = []) \<and>
   get_reading_sessions db_reading 1 = [first_session] \<and>
   (int64 2 \<and> (2::int) \<notin> b_id ` set (books db_reading)) \<and>
   delete_book db_reading 2 = (db_reading, Inr False) \<and>
   \<not> int64 too_big \<and>
   delete_book db_reading too_big = (db_reading, Inl OverflowError)"
proof -
  have h1: "int64 1 \<and> (1::int) \<in> b_id ` set (books db_reading)"
    by (simp add: db_reading_eq dune_def int64_def)
  have h2: "int64 2 \<and> (2::int) \<notin> b_id ` set (books db_reading)"
    by (simp add: db_reading_eq dune_def int64_def)
  have h3: "get_reading_sessions db_reading 1 = [first_session]"
    by (simp add: get_reading_sessions_def db_reading_eq first_session_def)
  have h4: "\<not> int64 too_big" by (simp add: int64_def too_big_def)
  show ?thesis
    by (intro conjI, rule h1 [THEN conjunct1], rule h1 [THEN conjunct2],
        rule delete_book_cascade [of 1 db_reading, THEN conjunct1, rule_format, OF h1],
        rule h3, rule h2 [THEN conjunct1], rule h2 [THEN conjunct2],
        rule delete_book_cascade [of 2 db_reading, THEN conjunct2, THEN conjunct1, rule_format, OF h2],
        rule h4,
        rule delete_book_cascade [of too_big db_reading, THEN conjunct2, THEN conjunct2,
          rule_format, OF h4])
qed

text \<open>
  The claim as stated fails for an id outside the 64-bit range: no stored book has the
  id \<open>2 ^ 63\<close>, and the call raises \<open>OverflowError\<close> where the claim has a not-found
  signal and no exception.
\<close>

theorem delete_book_too_big_counterexample:
  "too_big \<notin> b_id ` set (books db_reading) \<and>
   delete_book db_reading too_big = (db_reading, Inl OverflowError)"
  by (simp add: db_reading_eq dune_def too_big_def delete_book_def int64_def)

end
